theory Spec2Isabelle
  imports Main "HOL-Library.Word"
begin

section \<open>JavaScript values\<close>

text \<open>
  A JavaScript string is a sequence of 16-bit code units; \<open>s.length\<close> is the number of
  code units. \<open>js\<close> writes an ASCII literal as such a string.
\<close>

type_synonym jsstring = "16 word list"

definition js :: "string \<Rightarrow> jsstring" where
  "js s = map of_char s"

text \<open>
  The values the handlers inspect: what a client sends (a JSON value, \<open>Undefined\<close> when
  the field or argument is absent) and what a property read yields. \<open>Num\<close> holds the
  numeric value; the handlers only test it against zero. \<open>Builtin k\<close> is the function or
  object that \<open>Object.prototype\<close> holds under the name \<open>k\<close>; no client sends one and no
  file holds one.
\<close>

datatype jsval =
    Undefined
  | Null
  | Bool bool
  | Num int
  | Str jsstring
  | Arr "jsval list"
  | Obj "(jsstring \<times> jsval) list"
  | Builtin jsstring

text \<open>\<open>!v\<close> is \<open>\<not> truthy v\<close>.\<close>

fun truthy :: "jsval \<Rightarrow> bool" where
  "truthy Undefined = False"
| "truthy Null = False"
| "truthy (Bool b) = b"
| "truthy (Num n) = (n \<noteq> 0)"
| "truthy (Str s) = (s \<noteq> [])"
| "truthy (Arr xs) = True"
| "truthy (Obj kvs) = True"
| "truthy (Builtin k) = True"

text \<open>\<open>typeof v === 'string'\<close>.\<close>

fun is_string :: "jsval \<Rightarrow> bool" where
  "is_string (Str s) = True"
| "is_string v = False"

text \<open>
  \<open>a === b\<close>, for \<open>a\<close> read from a stored document (or inherited) and \<open>b\<close> sent by a
  client: primitives are compared by value, arrays and objects by identity, and two
  values of such different origins are never the same object.
\<close>

fun strict_eq :: "jsval \<Rightarrow> jsval \<Rightarrow> bool" where
  "strict_eq Undefined Undefined = True"
| "strict_eq Null Null = True"
| "strict_eq (Bool a) (Bool b) = (a = b)"
| "strict_eq (Num a) (Num b) = (a = b)"
| "strict_eq (Str a) (Str b) = (a = b)"
| "strict_eq a b = False"

text \<open>
  The conversion of a value to a string, in a property key (\<open>users[email]\<close>) and in a
  template literal, can throw. An object is converted by its \<open>toString\<close> method, then by
  \<open>valueOf\<close>. A client sends data, never a function: an object of its sending that has
  an own property \<open>toString\<close> hides the inherited method behind a value that cannot be
  called, \<open>valueOf\<close> (its own or the inherited one) yields no primitive, and the
  conversion ends in a TypeError. Without that property the inherited \<open>toString\<close>
  answers. An array is converted by joining the conversions of its elements, so it
  throws when one of them does. No other value throws.
\<close>

datatype error = TypeError

fun conversion_throws :: "jsval \<Rightarrow> bool" where
  "conversion_throws (Obj kvs) = (js ''toString'' \<in> set (map fst kvs))"
| "conversion_throws (Arr xs) = list_ex conversion_throws xs"
| "conversion_throws v = False"

text \<open>
  When the conversion does not throw: a string converts to itself; what the runtime
  prints for any other value is the parameter \<open>tostr\<close>.
\<close>

definition to_string :: "(jsval \<Rightarrow> jsstring) \<Rightarrow> jsval \<Rightarrow> jsstring" where
  "to_string tostr v = (case v of Str s \<Rightarrow> s | _ \<Rightarrow> tostr v)"

definition string_of :: "(jsval \<Rightarrow> jsstring) \<Rightarrow> jsval \<Rightarrow> error + jsstring" where
  "string_of tostr v = (if conversion_throws v then Inl TypeError else Inr (to_string tostr v))"

subsection \<open>\<open>String.prototype.trim\<close>\<close>

text \<open>
  \<open>trim\<close> removes the code units of ECMAScript's WhiteSpace and LineTerminator
  productions from both ends.
\<close>

definition is_white_space :: "16 word \<Rightarrow> bool" where
  "is_white_space c \<longleftrightarrow>
     c \<in> set [0x0009, 0x000A, 0x000B, 0x000C, 0x000D, 0x0020, 0x00A0, 0x1680,
              0x2000, 0x2001, 0x2002, 0x2003, 0x2004, 0x2005, 0x2006, 0x2007, 0x2008,
              0x2009, 0x200A, 0x2028, 0x2029, 0x202F, 0x205F, 0x3000, 0xFEFF]"

definition trim :: "jsstring \<Rightarrow> jsstring" where
  "trim s = rev (dropWhile is_white_space (rev (dropWhile is_white_space s)))"

section \<open>The two JSON files\<close>

text \<open>
  A file either cannot be read or parsed (\<open>readJSON\<close> catches the exception and returns
  null, here \<open>None\<close>), or holds a document. The documents are typed as the program
  writes them: \<open>users.json\<close> is an object from email to display name, \<open>messages.json\<close> is
  an array of message records. Such a document is truthy, so \<open>readJSON(p) || d\<close> is
  \<open>d\<close> exactly when \<open>readJSON\<close> returned null; a file that holds the JSON value
  \<open>null\<close> reads like one that cannot be parsed. \<open>fs.writeFileSync\<close> is taken to succeed.
\<close>

datatype 'a json_file = Unreadable | Doc 'a

fun readJSON :: "'a json_file \<Rightarrow> 'a option" where
  "readJSON Unreadable = None"
| "readJSON (Doc d) = Some d"

definition writeJSON :: "'a \<Rightarrow> 'a json_file" where
  "writeJSON obj = Doc obj"

definition or_else :: "'a option \<Rightarrow> 'a \<Rightarrow> 'a" where
  "or_else r d = (case r of None \<Rightarrow> d | Some v \<Rightarrow> v)"

subsection \<open>The users object\<close>

text \<open>
  The own properties of the parsed object are a map. A read \<open>users[k]\<close> of a name that is
  not an own property goes to \<open>Object.prototype\<close>. An assignment \<open>users[k] = v\<close> creates
  or overwrites an own property, except for the name \<open>__proto__\<close>: unless the object has
  an own property of that name, the assignment reaches the inherited setter, which
  ignores a string.
\<close>

type_synonym users = "jsstring \<rightharpoonup> jsstring"

definition object_prototype_names :: "jsstring list" where
  "object_prototype_names =
     map js [''constructor'', ''__defineGetter__'', ''__defineSetter__'', ''hasOwnProperty'',
             ''__lookupGetter__'', ''__lookupSetter__'', ''isPrototypeOf'',
             ''propertyIsEnumerable'', ''toString'', ''valueOf'', ''__proto__'',
             ''toLocaleString'']"

definition get_property :: "users \<Rightarrow> jsstring \<Rightarrow> jsval" where
  "get_property users k =
     (case users k of
        Some v \<Rightarrow> Str v
      | None \<Rightarrow> if k \<in> set object_prototype_names then Builtin k else Undefined)"

definition set_property :: "users \<Rightarrow> jsstring \<Rightarrow> jsstring \<Rightarrow> users" where
  "set_property users k v =
     (if k = js ''__proto__'' \<and> users k = None then users else users(k \<mapsto> v))"

section \<open>The server\<close>

record message =
  msg_sender :: jsval
  msg_email :: jsval
  msg_text :: jsstring
  msg_ts :: int

datatype event =
    ErrorMsg jsstring
  | Init "message list"
  | System jsstring int
  | Message message
  | Disconnected

text \<open>
  The state: the two files, the connected sockets that passed the admission check, each
  with the \<open>email\<close> and \<open>username\<close> its handlers closed over, the number of the next
  socket, every event the server has emitted, with the socket it went to, and every
  exception a handler has thrown and nothing caught, with the socket whose handler it
  was. \<open>Disconnected\<close> records \<open>socket.disconnect()\<close>. What the runtime does with an
  uncaught exception (left alone, it ends the process) is not part of the state.
\<close>

record server =
  users_file :: "users json_file"
  messages_file :: "message list json_file"
  sockets :: "(nat \<times> jsval \<times> jsval) list"
  next_socket :: nat
  deliveries :: "(nat \<times> event) list"
  uncaught :: "(nat \<times> error) list"

text \<open>A first start: both files are created, as \<open>{}\<close> and \<open>[]\<close>.\<close>

definition initial :: server where
  "initial = \<lparr>users_file = Doc Map.empty, messages_file = Doc [], sockets = [],
              next_socket = 0, deliveries = [], uncaught = []\<rparr>"

subsection \<open>The HTTP handlers\<close>

text \<open>
  \<open>req.user\<close> is the profile of the session, if any; \<open>emails\<close> lists the \<open>value\<close> of
  each entry of \<open>req.user.emails\<close>.
\<close>

record profile =
  emails :: "jsstring list option"
  displayName :: "jsstring option"

text \<open>
  The guard \<open>!req.user || !req.user.emails || !req.user.emails.length\<close>, and
  \<open>req.user.emails[0].value\<close> when it passes.
\<close>

definition session_email :: "profile option \<Rightarrow> jsstring option" where
  "session_email user =
     (case user of
        None \<Rightarrow> None
      | Some p \<Rightarrow>
          (case emails p of
             None \<Rightarrow> None
           | Some [] \<Rightarrow> None
           | Some (e # es) \<Rightarrow> Some e))"

text \<open>\<open>v || null\<close>.\<close>

definition or_null :: "jsval \<Rightarrow> jsval" where
  "or_null v = (if truthy v then v else Null)"

datatype user_response =
    Anonymous
  | User jsstring jsval jsval

text \<open>
  \<open>GET /api/user\<close>. An answer is the object handed to \<open>res.json\<close>: \<open>Anonymous\<close> is
  \<open>{authenticated: false}\<close>, \<open>User email name username\<close> is the authenticated one.
\<close>

definition get_user :: "server \<Rightarrow> profile option \<Rightarrow> user_response" where
  "get_user st user =
     (case user of
        None \<Rightarrow> Anonymous
      | Some p \<Rightarrow>
          (case session_email user of
             None \<Rightarrow> Anonymous
           | Some email \<Rightarrow>
               (let users = or_else (readJSON (users_file st)) Map.empty;
                    username = or_null (get_property users email);
                    name = or_null (case displayName p of None \<Rightarrow> Undefined | Some n \<Rightarrow> Str n)
                in User email name username)))"

datatype set_response =
    Ok jsstring
  | Failed nat jsstring

text \<open>The guard \<open>!username || typeof username !== 'string' || username.length < 2\<close>.\<close>

definition invalid_username :: "jsval \<Rightarrow> bool" where
  "invalid_username username \<longleftrightarrow>
     \<not> truthy username \<or> \<not> is_string username \<or>
     (case username of Str s \<Rightarrow> length s < 2 | _ \<Rightarrow> False)"

text \<open>
  \<open>POST /api/set-username\<close>, with \<open>username\<close> the field of the request body. \<open>Ok name\<close>
  is \<open>{ok: true, username}\<close>, \<open>Failed status error\<close> is \<open>{ok: false, error}\<close> under that
  HTTP status.
\<close>

definition set_username :: "server \<Rightarrow> profile option \<Rightarrow> jsval \<Rightarrow> set_response \<times> server" where
  "set_username st user username =
     (case session_email user of
        None \<Rightarrow> (Failed 401 (js ''not authenticated''), st)
      | Some email \<Rightarrow>
          if invalid_username username then (Failed 400 (js ''invalid username''), st)
          else
            (case username of
               Str name \<Rightarrow>
                 (let users = or_else (readJSON (users_file st)) Map.empty;
                      users = set_property users email name
                  in (Ok name, st\<lparr>users_file := writeJSON users\<rparr>))
             | _ \<Rightarrow> (Failed 400 (js ''invalid username''), st)))"

text \<open>\<open>GET /api/messages\<close>.\<close>

definition get_messages :: "server \<Rightarrow> message list" where
  "get_messages st = or_else (readJSON (messages_file st)) []"

subsection \<open>The socket handlers\<close>

definition emit :: "server \<Rightarrow> nat \<Rightarrow> event \<Rightarrow> server" where
  "emit st socket ev = st\<lparr>deliveries := deliveries st @ [(socket, ev)]\<rparr>"

text \<open>\<open>socket.broadcast.emit\<close>: to every connected socket but this one.\<close>

definition broadcast_emit :: "server \<Rightarrow> nat \<Rightarrow> event \<Rightarrow> server" where
  "broadcast_emit st socket ev =
     st\<lparr>deliveries := deliveries st @
          map (\<lambda>c. (c, ev)) (filter (\<lambda>c. c \<noteq> socket) (map fst (sockets st)))\<rparr>"

text \<open>\<open>io.emit\<close>: to every connected socket.\<close>

definition io_emit :: "server \<Rightarrow> event \<Rightarrow> server" where
  "io_emit st ev =
     st\<lparr>deliveries := deliveries st @ map (\<lambda>c. (c, ev)) (map fst (sockets st))\<rparr>"

text \<open>
  \<open>socket.handshake.auth || {}\<close>: its \<open>email\<close> and \<open>username\<close>, each \<open>Undefined\<close> when
  the client sent none.
\<close>

record handshake =
  auth_email :: jsval
  auth_username :: jsval

text \<open>A handler throws, and nothing catches it: what it did before stays done.\<close>

definition throws :: "server \<Rightarrow> nat \<Rightarrow> error \<Rightarrow> server" where
  "throws st socket err = st\<lparr>uncaught := uncaught st @ [(socket, err)]\<rparr>"

text \<open>The refusal: the notice, then \<open>socket.disconnect()\<close>.\<close>

definition refuse :: "server \<Rightarrow> nat \<Rightarrow> server" where
  "refuse st socket =
     (let st = emit st socket
                 (ErrorMsg (js ''Authentication invalid. Please reload and login.''))
      in emit st socket Disconnected)"

text \<open>
  \<open>io.on('connection')\<close>. The new socket is \<open>next_socket st\<close>; \<open>now\<close> is \<open>Date.now()\<close>.
  The test \<open>!email || !username || users[email] !== username\<close> reads \<open>users[email]\<close>
  only when both fields are truthy, and that read converts \<open>email\<close> to a property key:
  where the conversion throws, the handler ends there, before it has emitted anything.
  A refused socket gets the notice and is disconnected before any handler is registered.
  An admitted socket is sent the log, the others are told, and its handlers are
  registered: it joins \<open>sockets\<close>.
\<close>

definition on_connection :: "(jsval \<Rightarrow> jsstring) \<Rightarrow> server \<Rightarrow> handshake \<Rightarrow> int \<Rightarrow> server" where
  "on_connection tostr st hs now =
     (let socket = next_socket st;
          email = auth_email hs;
          username = auth_username hs;
          users = or_else (readJSON (users_file st)) Map.empty;
          st = st\<lparr>next_socket := Suc socket\<rparr>
      in if \<not> truthy email \<or> \<not> truthy username then refuse st socket
         else
           (case string_of tostr email of
              Inl err \<Rightarrow> throws st socket err
            | Inr key \<Rightarrow>
                if \<not> strict_eq (get_property users key) username then refuse st socket
                else
                  (let messages = or_else (readJSON (messages_file st)) [];
                       st = emit st socket (Init messages)
                   in case string_of tostr username of
                        Inl err \<Rightarrow> throws st socket err
                      | Inr name \<Rightarrow>
                          (let st = broadcast_emit st socket (System (name @ js '' joined'') now)
                           in st\<lparr>sockets := sockets st @ [(socket, email, username)]\<rparr>))))"

definition MAX_messages :: nat where
  "MAX_messages = 500"

text \<open>\<open>while (messages.length > MAX) messages.shift()\<close>, with \<open>MAX_messages\<close> for \<open>MAX\<close>.\<close>

function shift_while :: "'a list \<Rightarrow> 'a list" where
  "shift_while messages =
     (if length messages > MAX_messages then shift_while (tl messages) else messages)"
  by pat_completeness auto
termination
  by (relation "measure length") (auto simp: MAX_messages_def)

text \<open>
  The \<open>sendMessage\<close> handler of an admitted socket, with the \<open>email\<close> and \<open>username\<close> of
  its connection. A socket that is not connected, or was refused, has no handler.
\<close>

definition on_sendMessage :: "server \<Rightarrow> nat \<Rightarrow> jsval \<Rightarrow> int \<Rightarrow> server" where
  "on_sendMessage st socket text now =
     (case map_of (sockets st) socket of
        None \<Rightarrow> st
      | Some (email, username) \<Rightarrow>
          if \<not> truthy text \<or> \<not> is_string text then st
          else
            (case text of
               Str s \<Rightarrow>
                 (let messages = or_else (readJSON (messages_file st)) [];
                      msg = \<lparr>msg_sender = username, msg_email = email,
                             msg_text = trim s, msg_ts = now\<rparr>;
                      messages = messages @ [msg];
                      messages = shift_while messages;
                      st = st\<lparr>messages_file := writeJSON messages\<rparr>
                  in io_emit st (Message msg))
             | _ \<Rightarrow> st))"

text \<open>The \<open>disconnect\<close> handler: the socket has left, the others are told.\<close>

definition on_disconnect :: "(jsval \<Rightarrow> jsstring) \<Rightarrow> server \<Rightarrow> nat \<Rightarrow> int \<Rightarrow> server" where
  "on_disconnect tostr st socket now =
     (case map_of (sockets st) socket of
        None \<Rightarrow> st
      | Some (email, username) \<Rightarrow>
          (let st = st\<lparr>sockets := filter (\<lambda>c. fst c \<noteq> socket) (sockets st)\<rparr>
           in case string_of tostr username of
                Inl err \<Rightarrow> throws st socket err
              | Inr name \<Rightarrow> broadcast_emit st socket (System (name @ js '' left'') now)))"

subsection \<open>Runs\<close>

text \<open>
  The server handles one event at a time, each handler running to its end: every file
  access is synchronous. A run is a list of events, each with its \<open>Date.now()\<close> where
  the handler reads it.
\<close>

datatype action =
    Connect handshake int
  | SendMessage nat jsval int
  | Disconnect nat int
  | GetUser "profile option"
  | SetUsername "profile option" jsval
  | GetMessages

fun step :: "(jsval \<Rightarrow> jsstring) \<Rightarrow> server \<Rightarrow> action \<Rightarrow> server" where
  "step tostr st (Connect hs now) = on_connection tostr st hs now"
| "step tostr st (SendMessage socket text now) = on_sendMessage st socket text now"
| "step tostr st (Disconnect socket now) = on_disconnect tostr st socket now"
| "step tostr st (GetUser user) = st"
| "step tostr st (SetUsername user username) = snd (set_username st user username)"
| "step tostr st GetMessages = st"

definition run :: "(jsval \<Rightarrow> jsstring) \<Rightarrow> server \<Rightarrow> action list \<Rightarrow> server" where
  "run tostr st acts = foldl (step tostr) st acts"

section \<open>Notions the properties are stated with\<close>

text \<open>What \<open>readJSON(p) || d\<close> yields for each file, written back as documents.\<close>

definition as_if_empty :: "server \<Rightarrow> server" where
  "as_if_empty st =
     st\<lparr>users_file := Doc (or_else (readJSON (users_file st)) Map.empty),
        messages_file := Doc (or_else (readJSON (messages_file st)) [])\<rparr>"

text \<open>
  The admission policy in the words of the specification: both fields are present, and
  the value of the stored mapping for the asserted email is the asserted username,
  exactly. The mapping is from emails, which are strings, to names, which are strings:
  it has a value for no other email, and the value is no other username.
\<close>

definition asserted_pair_stored :: "server \<Rightarrow> handshake \<Rightarrow> bool" where
  "asserted_pair_stored st hs \<longleftrightarrow>
     (case auth_email hs of
        Str e \<Rightarrow>
          (case auth_username hs of
             Str u \<Rightarrow>
               e \<noteq> [] \<and> u \<noteq> [] \<and>
               or_else (readJSON (users_file st)) Map.empty e = Some u
           | _ \<Rightarrow> False)
      | _ \<Rightarrow> False)"

text \<open>
  The handshakes the handler admits: both fields are truthy, the email converts to a
  key without throwing, and the own property of the users object under that key is
  the username.
\<close>

definition admissible :: "(jsval \<Rightarrow> jsstring) \<Rightarrow> server \<Rightarrow> handshake \<Rightarrow> bool" where
  "admissible tostr st hs \<longleftrightarrow>
     truthy (auth_email hs) \<and> truthy (auth_username hs) \<and>
     \<not> conversion_throws (auth_email hs) \<and>
     (case auth_username hs of
        Str name \<Rightarrow>
          or_else (readJSON (users_file st)) Map.empty (to_string tostr (auth_email hs)) =
            Some name
      | _ \<Rightarrow> False)"

text \<open>The handshakes on which the handler throws.\<close>

definition unconvertible :: "handshake \<Rightarrow> bool" where
  "unconvertible hs \<longleftrightarrow>
     truthy (auth_email hs) \<and> truthy (auth_username hs) \<and> conversion_throws (auth_email hs)"

text \<open>The events a socket has received, in order.\<close>

definition events_to :: "nat \<Rightarrow> (nat \<times> event) list \<Rightarrow> event list" where
  "events_to c ds = map snd (filter (\<lambda>d. fst d = c) ds)"

fun is_init :: "event \<Rightarrow> bool" where
  "is_init (Init history) = True"
| "is_init ev = False"

text \<open>Socket numbers are given out in order: every socket seen so far is below the next.\<close>

definition ids_below_next :: "server \<Rightarrow> bool" where
  "ids_below_next st \<longleftrightarrow>
     list_all (\<lambda>c. c < next_socket st) (map fst (sockets st)) \<and>
     list_all (\<lambda>c. c < next_socket st) (map fst (deliveries st))"

text \<open>
  A sequence of \<open>sendMessage\<close> events, each a socket, a payload and a time, and the record
  each of them adds, if any: the socket is connected and the payload is a string that
  is not empty.
\<close>

definition submits :: "(nat \<times> jsval \<times> int) list \<Rightarrow> action list" where
  "submits subs = map (\<lambda>(c, t, now). SendMessage c t now) subs"

definition submitted :: "(nat \<times> jsval \<times> jsval) list \<Rightarrow> nat \<times> jsval \<times> int \<Rightarrow> message list" where
  "submitted socks sub =
     (case sub of (c, t, now) \<Rightarrow>
        (case map_of socks c of
           None \<Rightarrow> []
         | Some (e, u) \<Rightarrow>
             (case t of
                Str s \<Rightarrow>
                  if s = [] then []
                  else [\<lparr>msg_sender = u, msg_email = e, msg_text = trim s, msg_ts = now\<rparr>]
              | _ \<Rightarrow> [])))"

definition most_recent :: "nat \<Rightarrow> 'a list \<Rightarrow> 'a list" where
  "most_recent n xs = drop (length xs - n) xs"

subsection \<open>Example data\<close>

definition no_tostring :: "jsval \<Rightarrow> jsstring" where
  "no_tostring v = []"

definition alice :: "profile option" where
  "alice = Some \<lparr>emails = Some [js ''a@x.com''], displayName = Some (js ''Alice A'')\<rparr>"

definition bob :: "profile option" where
  "bob = Some \<lparr>emails = Some [js ''b@x.com''], displayName = None\<rparr>"

definition alice_auth :: handshake where
  "alice_auth = \<lparr>auth_email = Str (js ''a@x.com''), auth_username = Str (js ''alice'')\<rparr>"

definition bob_auth :: handshake where
  "bob_auth = \<lparr>auth_email = Str (js ''b@x.com''), auth_username = Str (js ''bob'')\<rparr>"

text \<open>The handshake \<open>{email: {toString: null}, username: "alice"}\<close>.\<close>

definition unconvertible_auth :: handshake where
  "unconvertible_auth =
     \<lparr>auth_email = Obj [(js ''toString'', Null)], auth_username = Str (js ''alice'')\<rparr>"

text \<open>Alice and Bob have chosen their names and are connected, as sockets 0 and 1.\<close>

definition example_chat :: server where
  "example_chat =
     \<lparr>users_file = Doc [js ''a@x.com'' \<mapsto> js ''alice'', js ''b@x.com'' \<mapsto> js ''bob''],
      messages_file = Doc [],
      sockets = [(0, Str (js ''a@x.com''), Str (js ''alice'')),
                 (1, Str (js ''b@x.com''), Str (js ''bob''))],
      next_socket = 2,
      deliveries = [(0, Init []), (1, Init []), (0, System (js ''bob joined'') 2)],
      uncaught = []\<rparr>"

text \<open>Both files have become unreadable while Alice is connected.\<close>

definition example_unreadable :: server where
  "example_unreadable =
     \<lparr>users_file = Unreadable, messages_file = Unreadable,
      sockets = [(0, Str (js ''a@x.com''), Str (js ''alice''))],
      next_socket = 1, deliveries = [(0, Init [])], uncaught = []\<rparr>"

text \<open>The log is full: 500 records of Bob's.\<close>

definition old_message :: message where
  "old_message = \<lparr>msg_sender = Str (js ''bob''), msg_email = Str (js ''b@x.com''),
                   msg_text = js ''old'', msg_ts = 1\<rparr>"

definition example_full :: server where
  "example_full = example_chat\<lparr>messages_file := Doc (replicate 500 old_message)\<rparr>"

section \<open>Basic facts\<close>

declare shift_while.simps [simp del]

lemma or_else_Some [simp]: "or_else (Some v) d = v"
  by (simp add: or_else_def)

lemma or_else_None [simp]: "or_else None d = d"
  by (simp add: or_else_def)

lemma not_nonempty_string: "\<not> truthy t \<or> \<not> is_string t \<longleftrightarrow> (\<forall>s. t = Str s \<longrightarrow> s = [])"
  by (cases t) auto

lemma strict_eq_property:
  "truthy u \<Longrightarrow>
     strict_eq (get_property users k) u \<longleftrightarrow> (case u of Str name \<Rightarrow> users k = Some name | _ \<Rightarrow> False)"
  by (cases u) (auto simp: get_property_def split: option.splits)

subsection \<open>The shift loop keeps the last \<open>MAX_messages\<close> elements\<close>

lemma shift_while_drop: "shift_while xs = drop (length xs - MAX_messages) xs"
proof (induction xs rule: shift_while.induct)
  case (1 messages)
  show ?case
  proof (cases "length messages > MAX_messages")
    case True
    then obtain x xs where m: "messages = x # xs"
      by (cases messages) auto
    from True m have "length messages - MAX_messages = Suc (length xs - MAX_messages)"
      by simp
    with 1 [OF True] True m show ?thesis
      by (subst shift_while.simps) simp
  next
    case False
    then show ?thesis
      by (subst shift_while.simps) simp
  qed
qed

lemma shift_while_most_recent: "shift_while xs = most_recent MAX_messages xs"
  by (simp add: shift_while_drop most_recent_def)

lemma most_recent_all: "length xs \<le> n \<Longrightarrow> most_recent n xs = xs"
  by (simp add: most_recent_def)

lemma length_most_recent: "length (most_recent n xs) \<le> n"
  by (simp add: most_recent_def)

lemma most_recent_append: "most_recent n (most_recent n xs @ ys) = most_recent n (xs @ ys)"
proof (cases "length xs \<le> n")
  case True
  then show ?thesis
    by (simp add: most_recent_all)
next
  case False
  then show ?thesis
    by (simp add: most_recent_def add.commute)
qed

lemma most_recent_snoc: "0 < n \<Longrightarrow> most_recent n (xs @ [x]) \<noteq> [] \<and> last (most_recent n (xs @ [x])) = x"
  by (auto simp: most_recent_def)

subsection \<open>The handlers, case by case\<close>

lemma get_messages_written [simp]: "get_messages (st\<lparr>messages_file := Doc ms\<rparr>) = ms"
  by (simp add: get_messages_def)

lemma get_messages_deliveries [simp]:
  "get_messages (st\<lparr>deliveries := ds\<rparr>) = get_messages st"
  by (simp add: get_messages_def)

lemma deliveries_as_if_empty: "deliveries (as_if_empty st) = deliveries st"
  by (simp add: as_if_empty_def)

lemma get_messages_as_if_empty: "get_messages (as_if_empty st) = get_messages st"
  by (simp add: as_if_empty_def get_messages_def)

lemma sendMessage_ignored:
  assumes "\<not> truthy t \<or> \<not> is_string t"
  shows "on_sendMessage st c t now = st"
  using assms by (auto simp: on_sendMessage_def split: option.splits)

lemma sendMessage_accepted:
  assumes "map_of (sockets st) c = Some (e, u)" and "s \<noteq> []"
  shows "on_sendMessage st c (Str s) now =
           st\<lparr>messages_file := Doc (shift_while (get_messages st @
                  [\<lparr>msg_sender = u, msg_email = e, msg_text = trim s, msg_ts = now\<rparr>])),
              deliveries := deliveries st @
                 map (\<lambda>c'. (c', Message \<lparr>msg_sender = u, msg_email = e, msg_text = trim s,
                                          msg_ts = now\<rparr>))
                   (map fst (sockets st))\<rparr>"
  using assms
  by (simp add: on_sendMessage_def get_messages_def io_emit_def writeJSON_def Let_def)

lemma sendMessage_sockets: "sockets (on_sendMessage st c t now) = sockets st"
  by (simp add: on_sendMessage_def io_emit_def Let_def split: option.splits jsval.splits)

lemma sendMessage_log:
  assumes "length (get_messages st) \<le> MAX_messages"
  shows "get_messages (on_sendMessage st c t now) =
           most_recent MAX_messages (get_messages st @ submitted (sockets st) (c, t, now))"
  using assms
  by (cases t)
     (auto simp: on_sendMessage_def submitted_def get_messages_def io_emit_def writeJSON_def
        shift_while_drop most_recent_def Let_def split: option.splits)

lemma on_connection_refused:
  assumes "\<not> admissible tostr st hs" and "\<not> unconvertible hs"
  shows "on_connection tostr st hs now =
           st\<lparr>next_socket := Suc (next_socket st),
              deliveries := deliveries st @
                [(next_socket st,
                  ErrorMsg (js ''Authentication invalid. Please reload and login.'')),
                 (next_socket st, Disconnected)]\<rparr>"
  using assms
  by (auto simp: on_connection_def admissible_def unconvertible_def string_of_def
        strict_eq_property refuse_def emit_def Let_def)

lemma on_connection_thrown:
  assumes "unconvertible hs"
  shows "on_connection tostr st hs now =
           st\<lparr>next_socket := Suc (next_socket st),
              uncaught := uncaught st @ [(next_socket st, TypeError)]\<rparr>"
  using assms
  by (simp add: on_connection_def unconvertible_def string_of_def throws_def Let_def)

lemma admissible_not_unconvertible: "admissible tostr st hs \<Longrightarrow> \<not> unconvertible hs"
  by (simp add: admissible_def unconvertible_def)

lemma on_connection_admitted:
  assumes "admissible tostr st hs"
  shows "on_connection tostr st hs now =
           st\<lparr>next_socket := Suc (next_socket st),
              sockets := sockets st @ [(next_socket st, auth_email hs, auth_username hs)],
              deliveries := deliveries st @
                (next_socket st, Init (get_messages st)) #
                map (\<lambda>c. (c, System (to_string tostr (auth_username hs) @ js '' joined'') now))
                  (filter (\<lambda>c. c \<noteq> next_socket st) (map fst (sockets st)))\<rparr>"
  using assms
  by (cases "auth_username hs")
     (auto simp: on_connection_def admissible_def string_of_def to_string_def
        strict_eq_property emit_def broadcast_emit_def get_messages_def Let_def)

subsection \<open>Events only accumulate, and socket numbers stay in order\<close>

lemma events_to_Nil [simp]: "events_to c [] = []"
  by (simp add: events_to_def)

lemma events_to_Cons [simp]:
  "events_to c ((c', ev) # ds) = (if c' = c then ev # events_to c ds else events_to c ds)"
  by (simp add: events_to_def)

lemma events_to_append [simp]: "events_to c (xs @ ys) = events_to c xs @ events_to c ys"
  by (simp add: events_to_def)

lemma events_to_none: "c \<notin> set (map fst ds) \<Longrightarrow> events_to c ds = []"
  by (induction ds) (auto simp: events_to_def)

lemma events_to_others: "c \<notin> set cs \<Longrightarrow> events_to c (map (\<lambda>c'. (c', ev)) cs) = []"
  by (induction cs) (auto simp: events_to_def)

lemma below_next_fresh:
  assumes "ids_below_next st"
  shows "next_socket st \<notin> set (map fst (sockets st))"
    and "next_socket st \<notin> set (map fst (deliveries st))"
  using assms by (auto simp: ids_below_next_def list_all_iff)

lemma deliveries_step: "\<exists>new. deliveries (step tostr st a) = deliveries st @ new"
proof (cases a)
  case (Connect hs now)
  then show ?thesis
    by (cases "admissible tostr st hs"; cases "unconvertible hs")
       (simp_all add: on_connection_refused on_connection_admitted on_connection_thrown)
next
  case (SendMessage c t now)
  then show ?thesis
    by (simp add: on_sendMessage_def io_emit_def Let_def split: option.splits jsval.splits)
next
  case (Disconnect c now)
  then show ?thesis
    by (simp add: on_disconnect_def broadcast_emit_def throws_def Let_def
          split: option.splits sum.splits)
next
  case (SetUsername user cand)
  then show ?thesis
    by (simp add: set_username_def split: option.splits jsval.splits)
qed simp_all

lemma deliveries_run: "\<exists>new. deliveries (run tostr st acts) = deliveries st @ new"
proof (induction acts arbitrary: st)
  case Nil
  then show ?case
    by (simp add: run_def)
next
  case (Cons a acts)
  obtain n1 where "deliveries (step tostr st a) = deliveries st @ n1"
    using deliveries_step by blast
  moreover obtain n2 where
    "deliveries (run tostr (step tostr st a) acts) = deliveries (step tostr st a) @ n2"
    using Cons.IH by blast
  ultimately show ?case
    by (simp add: run_def)
qed

lemma step_keeps_ids:
  assumes "ids_below_next st"
  shows "ids_below_next (step tostr st a) \<and> next_socket st \<le> next_socket (step tostr st a)"
proof (cases a)
  case (Connect hs now)
  with assms show ?thesis
    by (cases "admissible tostr st hs"; cases "unconvertible hs")
       (auto simp: on_connection_refused on_connection_admitted on_connection_thrown
          ids_below_next_def list_all_iff less_Suc_eq)
next
  case (SendMessage c t now)
  with assms show ?thesis
    by (auto simp: on_sendMessage_def io_emit_def ids_below_next_def list_all_iff Let_def
          split: option.splits jsval.splits)
next
  case (Disconnect c now)
  with assms show ?thesis
    by (auto simp: on_disconnect_def broadcast_emit_def throws_def ids_below_next_def
          list_all_iff Let_def split: option.splits sum.splits)
next
  case (SetUsername user cand)
  with assms show ?thesis
    by (auto simp: set_username_def ids_below_next_def writeJSON_def
          split: option.splits jsval.splits)
qed (use assms in simp_all)

lemma run_keeps_ids: "ids_below_next st \<Longrightarrow> ids_below_next (run tostr st acts)"
proof (induction acts arbitrary: st)
  case Nil
  then show ?case
    by (simp add: run_def)
next
  case (Cons a acts)
  from Cons.prems have "ids_below_next (step tostr st a)"
    by (simp add: step_keeps_ids)
  then have "ids_below_next (run tostr (step tostr st a) acts)"
    by (rule Cons.IH)
  then show ?case
    by (simp add: run_def)
qed

lemma reachable_ids_below_next: "ids_below_next (run tostr initial acts)"
  by (rule run_keeps_ids) (simp add: ids_below_next_def initial_def)

lemma step_no_init:
  assumes "ids_below_next st" and "c < next_socket st"
  shows "filter is_init (events_to c (deliveries (step tostr st a))) =
         filter is_init (events_to c (deliveries st))"
proof (cases a)
  case (Connect hs now)
  with assms show ?thesis
    by (cases "admissible tostr st hs"; cases "unconvertible hs")
       (auto simp: on_connection_refused on_connection_admitted on_connection_thrown
          events_to_def filter_empty_conv)
next
  case (SendMessage c' t now)
  then show ?thesis
    by (auto simp: on_sendMessage_def io_emit_def events_to_def Let_def filter_empty_conv
          split: option.splits jsval.splits)
next
  case (Disconnect c' now)
  then show ?thesis
    by (auto simp: on_disconnect_def broadcast_emit_def throws_def events_to_def Let_def
          filter_empty_conv split: option.splits sum.splits)
next
  case (SetUsername user cand)
  then show ?thesis
    by (auto simp: set_username_def split: option.splits jsval.splits)
qed simp_all

lemma run_no_init:
  assumes "ids_below_next st" and "c < next_socket st"
  shows "filter is_init (events_to c (deliveries (run tostr st acts))) =
         filter is_init (events_to c (deliveries st))"
  using assms
proof (induction acts arbitrary: st)
  case Nil
  then show ?case
    by (simp add: run_def)
next
  case (Cons a acts)
  from Cons.prems step_keeps_ids [of st tostr a]
  have "ids_below_next (step tostr st a)" and "c < next_socket (step tostr st a)"
    by auto
  then have "filter is_init (events_to c (deliveries (run tostr (step tostr st a) acts))) =
      filter is_init (events_to c (deliveries (step tostr st a)))"
    by (rule Cons.IH)
  with Cons.prems show ?case
    by (simp add: run_def step_no_init)
qed

subsection \<open>The log under every event\<close>

lemma step_keeps_bound:
  assumes "length (get_messages st) \<le> MAX_messages"
  shows "length (get_messages (step tostr st a)) \<le> MAX_messages"
proof (cases a)
  case (Connect hs now)
  with assms show ?thesis
    by (cases "admissible tostr st hs"; cases "unconvertible hs")
       (simp_all add: on_connection_refused on_connection_admitted on_connection_thrown
          get_messages_def)
next
  case (SendMessage c t now)
  with assms show ?thesis
    by (simp add: sendMessage_log length_most_recent)
next
  case (Disconnect c now)
  with assms show ?thesis
    by (simp add: on_disconnect_def broadcast_emit_def throws_def get_messages_def Let_def
          split: option.splits sum.splits)
next
  case (SetUsername user cand)
  with assms show ?thesis
    by (simp add: set_username_def get_messages_def split: option.splits jsval.splits)
qed (use assms in simp_all)

lemma reachable_log_bound: "length (get_messages (run tostr initial acts)) \<le> MAX_messages"
proof -
  have "length (get_messages st) \<le> MAX_messages \<Longrightarrow>
        length (get_messages (run tostr st acts)) \<le> MAX_messages" for st
  proof (induction acts arbitrary: st)
    case Nil
    then show ?case
      by (simp add: run_def)
  next
    case (Cons a acts)
    from Cons.prems have "length (get_messages (step tostr st a)) \<le> MAX_messages"
      by (rule step_keeps_bound)
    then have "length (get_messages (run tostr (step tostr st a) acts)) \<le> MAX_messages"
      by (rule Cons.IH)
    then show ?case
      by (simp add: run_def)
  qed
  then show ?thesis
    by (simp add: initial_def get_messages_def)
qed

lemma run_submits:
  assumes "length (get_messages st) \<le> MAX_messages"
  shows "get_messages (run tostr st (submits subs)) =
           most_recent MAX_messages
             (get_messages st @ concat (map (submitted (sockets st)) subs))"
  using assms
proof (induction subs arbitrary: st)
  case Nil
  then show ?case
    by (simp add: run_def submits_def most_recent_all)
next
  case (Cons sub subs)
  obtain c t now where sub: "sub = (c, t, now)"
    by (cases sub) auto
  let ?st1 = "on_sendMessage st c t now"
  have log1: "get_messages ?st1 =
      most_recent MAX_messages (get_messages st @ submitted (sockets st) sub)"
    using Cons.prems sub by (simp add: sendMessage_log)
  then have "length (get_messages ?st1) \<le> MAX_messages"
    by (simp add: length_most_recent)
  then have "get_messages (run tostr ?st1 (submits subs)) =
      most_recent MAX_messages
        (get_messages ?st1 @ concat (map (submitted (sockets ?st1)) subs))"
    by (rule Cons.IH)
  also have "\<dots> = most_recent MAX_messages
      ((get_messages st @ submitted (sockets st) sub) @
       concat (map (submitted (sockets st)) subs))"
    by (simp only: log1 most_recent_append sendMessage_sockets)
  finally show ?case
    using sub by (simp add: run_def submits_def)
qed

subsection \<open>What \<open>trim\<close> leaves\<close>

lemma trim_prefix: "\<exists>ws. dropWhile is_white_space s = trim s @ ws \<and> list_all is_white_space ws"
proof -
  define t where "t = dropWhile is_white_space s"
  have "rev t = takeWhile is_white_space (rev t) @ dropWhile is_white_space (rev t)"
    by simp
  then have "t = rev (dropWhile is_white_space (rev t)) @ rev (takeWhile is_white_space (rev t))"
    by (metis rev_append rev_rev_ident)
  moreover have "list_all is_white_space (rev (takeWhile is_white_space (rev t)))"
    by (simp add: list_all_iff) (meson set_takeWhileD)
  ultimately show ?thesis
    unfolding trim_def t_def by blast
qed

lemma trim_no_leading: "trim s \<noteq> [] \<Longrightarrow> \<not> is_white_space (hd (trim s))"
proof -
  assume ne: "trim s \<noteq> []"
  obtain ws where ws: "dropWhile is_white_space s = trim s @ ws"
    using trim_prefix by blast
  with ne have "hd (dropWhile is_white_space s) = hd (trim s)"
    by simp
  moreover from ws ne have "dropWhile is_white_space s \<noteq> []"
    by simp
  ultimately show ?thesis
    using hd_dropWhile [of is_white_space s] by simp
qed

lemma trim_no_trailing: "trim s \<noteq> [] \<Longrightarrow> \<not> is_white_space (last (trim s))"
proof -
  assume ne: "trim s \<noteq> []"
  let ?r = "dropWhile is_white_space (rev (dropWhile is_white_space s))"
  from ne have "?r \<noteq> []"
    by (simp add: trim_def)
  then have "\<not> is_white_space (hd ?r)"
    by (rule hd_dropWhile)
  moreover have "last (trim s) = hd ?r"
    using \<open>?r \<noteq> []\<close> by (simp add: trim_def last_rev)
  ultimately show ?thesis
    by simp
qed

lemma example_chat_reached:
  "run no_tostring initial
     [SetUsername alice (Str (js ''alice'')), SetUsername bob (Str (js ''bob'')),
      Connect alice_auth 1, Connect bob_auth 2] = example_chat"
  by (simp add: run_def initial_def alice_def bob_def alice_auth_def bob_auth_def
        example_chat_def set_username_def session_email_def invalid_username_def
        set_property_def writeJSON_def on_connection_def get_property_def string_of_def
        to_string_def emit_def broadcast_emit_def js_def Let_def)

subsection \<open>Admission\<close>

text \<open>
  Where the conversion of the email does not throw, a connection is admitted exactly
  when the handshake is admissible. Otherwise the socket receives the notice and is
  disconnected, it gets no handler, and no \<open>init\<close> event ever reaches it. For an email
  that is a string, the admissible handshakes are those of the policy.
\<close>

lemma admission_cases:
  assumes "ids_below_next st" and "\<not> unconvertible hs"
  shows "(next_socket st \<in> set (map fst (sockets (on_connection tostr st hs now))) \<longleftrightarrow>
            admissible tostr st hs) \<and>
         (if admissible tostr st hs
          then sockets (on_connection tostr st hs now) =
                 sockets st @ [(next_socket st, auth_email hs, auth_username hs)]
          else sockets (on_connection tostr st hs now) = sockets st \<and>
               deliveries (on_connection tostr st hs now) =
                 deliveries st @
                 [(next_socket st,
                   ErrorMsg (js ''Authentication invalid. Please reload and login.'')),
                  (next_socket st, Disconnected)] \<and>
               (\<forall>acts. list_all (\<lambda>ev. \<not> is_init ev)
                  (events_to (next_socket st)
                     (deliveries (run tostr (on_connection tostr st hs now) acts)))))"
proof (cases "admissible tostr st hs")
  case True
  then show ?thesis
    by (simp add: on_connection_admitted)
next
  case False
  let ?st1 = "on_connection tostr st hs now"
  have st1: "?st1 = st\<lparr>next_socket := Suc (next_socket st),
      deliveries := deliveries st @
        [(next_socket st, ErrorMsg (js ''Authentication invalid. Please reload and login.'')),
         (next_socket st, Disconnected)]\<rparr>"
    using False assms(2) by (rule on_connection_refused)
  have ids: "ids_below_next ?st1" and less: "next_socket st < next_socket ?st1"
    using assms(1) by (auto simp: st1 ids_below_next_def list_all_iff less_Suc_eq)
  have none: "events_to (next_socket st) (deliveries st) = []"
    using below_next_fresh(2) [OF assms(1)] by (rule events_to_none)
  have "list_all (\<lambda>ev. \<not> is_init ev)
      (events_to (next_socket st) (deliveries (run tostr ?st1 acts)))" for acts
  proof -
    have "filter is_init (events_to (next_socket st) (deliveries (run tostr ?st1 acts))) =
        filter is_init (events_to (next_socket st) (deliveries ?st1))"
      using ids less by (rule run_no_init)
    also have "\<dots> = []"
      by (simp add: st1 none)
    finally show ?thesis
      by (simp add: filter_empty_conv list_all_iff)
  qed
  with False below_next_fresh(1) [OF assms(1)] show ?thesis
    by (simp add: st1)
qed

lemma admissible_string_email:
  assumes "auth_email hs = Str e"
  shows "admissible tostr st hs \<longleftrightarrow> asserted_pair_stored st hs"
  using assms
  by (cases "auth_username hs")
     (auto simp: admissible_def asserted_pair_stored_def to_string_def)

lemma string_email_not_unconvertible: "auth_email hs = Str e \<Longrightarrow> \<not> unconvertible hs"
  by (simp add: unconvertible_def)

text \<open>
  An email that is not a string is looked up under what it converts to: where the
  runtime prints the array \<open>["a@x.com"]\<close> as \<open>a@x.com\<close>, that array is admitted as Alice's
  email, though the mapping has no value for it.
\<close>

lemma array_email_admitted:
  assumes "tostr (Arr [Str (js ''a@x.com'')]) = js ''a@x.com''"
  shows "admissible tostr example_chat
           \<lparr>auth_email = Arr [Str (js ''a@x.com'')], auth_username = Str (js ''alice'')\<rparr> \<and>
         \<not> asserted_pair_stored example_chat
           \<lparr>auth_email = Arr [Str (js ''a@x.com'')], auth_username = Str (js ''alice'')\<rparr>"
  using assms
  by (simp add: admissible_def asserted_pair_stored_def to_string_def example_chat_def js_def)

section \<open>The properties\<close>

text \<open>
  C1. Whatever \<open>sendMessage\<close> events arrive, in a state whose log is within the bound
  (as it is after a first start and after every event), the persisted log afterwards is
  within \<open>MAX_messages = 500\<close> records, and it holds exactly the most recent 500 of the
  earlier log followed by the submitted records, in submission order: the oldest are
  dropped from the front, and 500 remain as soon as there were more.
\<close>

theorem retention_most_recent:
  assumes "length (get_messages st) \<le> MAX_messages"
  shows "length (get_messages (run tostr st (submits subs))) \<le> 500 \<and>
         get_messages (run tostr st (submits subs)) =
           most_recent 500 (get_messages st @ concat (map (submitted (sockets st)) subs)) \<and>
         length (get_messages (run tostr st (submits subs))) =
           min 500 (length (get_messages st @ concat (map (submitted (sockets st)) subs)))"
  using run_submits [OF assms, of tostr subs] length_most_recent [of MAX_messages]
  by (auto simp: MAX_messages_def most_recent_def)

theorem retention_most_recent_witness:
  "length (get_messages example_full) \<le> MAX_messages \<and>
   length (get_messages (run no_tostring example_full
      (submits [(0, Str (js ''hi''), 7), (1, Num 3, 8), (1, Str (js '' yo''), 9)]))) = 500 \<and>
   get_messages (run no_tostring example_full
      (submits [(0, Str (js ''hi''), 7), (1, Num 3, 8), (1, Str (js '' yo''), 9)])) =
     replicate 498 old_message @
     [\<lparr>msg_sender = Str (js ''alice''), msg_email = Str (js ''a@x.com''),
        msg_text = js ''hi'', msg_ts = 7\<rparr>,
      \<lparr>msg_sender = Str (js ''bob''), msg_email = Str (js ''b@x.com''),
        msg_text = js ''yo'', msg_ts = 9\<rparr>]"
proof -
  have full: "get_messages example_full = replicate 500 old_message"
    by (simp add: example_full_def get_messages_def)
  then have bound: "length (get_messages example_full) \<le> MAX_messages"
    by (simp add: MAX_messages_def)
  have socks: "sockets example_full =
      [(0, Str (js ''a@x.com''), Str (js ''alice'')), (1, Str (js ''b@x.com''), Str (js ''bob''))]"
    by (simp add: example_full_def example_chat_def)
  have "drop 2 (replicate 500 old_message) = replicate 498 old_message"
    by simp
  with retention_most_recent [OF bound, of no_tostring
      "[(0, Str (js ''hi''), 7), (1, Num 3, 8), (1, Str (js '' yo''), 9)]"] bound
  show ?thesis
    by (simp add: full socks submitted_def most_recent_def trim_def is_white_space_def js_def)
qed

text \<open>
  C2. The handler does not keep to the policy for every handshake a client can send. The
  handshake \<open>{email: {toString: null}, username: "alice"}\<close> asserts no stored pair,
  whatever the users file holds, so it is to be refused with the notice and the socket
  disconnected. Both fields are truthy, so the handler reads \<open>users[email]\<close>, and the
  conversion of the email to a property key throws: the handler ends with a TypeError
  that nothing catches, the socket has been sent nothing, and it has not been
  disconnected.
\<close>

theorem unconvertible_email_throws:
  "\<not> asserted_pair_stored st unconvertible_auth \<and>
   uncaught (on_connection tostr st unconvertible_auth now) =
     uncaught st @ [(next_socket st, TypeError)] \<and>
   deliveries (on_connection tostr st unconvertible_auth now) = deliveries st \<and>
   sockets (on_connection tostr st unconvertible_auth now) = sockets st"
proof -
  have "unconvertible unconvertible_auth"
    by (simp add: unconvertible_def unconvertible_auth_def js_def)
  then show ?thesis
    by (simp add: on_connection_thrown asserted_pair_stored_def unconvertible_auth_def)
qed

theorem unconvertible_email_throws_witness:
  "truthy (auth_email unconvertible_auth) \<and> truthy (auth_username unconvertible_auth) \<and>
   uncaught (on_connection no_tostring example_chat unconvertible_auth 5) = [(2, TypeError)] \<and>
   events_to 2 (deliveries (on_connection no_tostring example_chat unconvertible_auth 5)) = []"
proof -
  have "next_socket example_chat = 2" and "uncaught example_chat = []"
    and "events_to 2 (deliveries example_chat) = []"
    by (simp_all add: example_chat_def)
  with unconvertible_email_throws [of example_chat no_tostring 5] show ?thesis
    by (simp add: unconvertible_auth_def js_def)
qed

text \<open>
  C3. For an authenticated email and a string of at least two code units, \<open>setUsername\<close>
  succeeds and \<open>getCurrentUser\<close> for the same session then answers with exactly that
  username, whatever the users file held before, readable or not. The email is any
  string but the literal \<open>__proto__\<close>, which is no address an identity provider asserts:
  under that one name an assignment to the users object stores nothing.
\<close>

theorem set_username_then_get_user:
  assumes "session_email user = Some e" and "e \<noteq> js ''__proto__''" and "2 \<le> length u"
  shows "\<exists>name. fst (set_username st user (Str u)) = Ok u \<and>
           get_user (snd (set_username st user (Str u))) user = User e name (Str u)"
  using assms
  by (auto simp: set_username_def get_user_def invalid_username_def set_property_def
        get_property_def or_null_def writeJSON_def session_email_def
        split: option.splits list.splits)

theorem set_username_then_get_user_witness:
  "session_email alice = Some (js ''a@x.com'') \<and> js ''a@x.com'' \<noteq> js ''__proto__'' \<and>
   2 \<le> length (js ''al'') \<and>
   fst (set_username example_unreadable alice (Str (js ''al''))) = Ok (js ''al'') \<and>
   get_user (snd (set_username example_unreadable alice (Str (js ''al'')))) alice =
     User (js ''a@x.com'') (Str (js ''Alice A'')) (Str (js ''al''))"
proof -
  have e: "session_email alice = Some (js ''a@x.com'')"
    by (simp add: session_email_def alice_def)
  have p: "js ''a@x.com'' \<noteq> js ''__proto__''"
    by (simp add: js_def)
  have l: "2 \<le> length (js ''al'')"
    by (simp add: js_def)
  from set_username_then_get_user [OF e p l, of example_unreadable]
  obtain name where
    "fst (set_username example_unreadable alice (Str (js ''al''))) = Ok (js ''al'')"
    "get_user (snd (set_username example_unreadable alice (Str (js ''al'')))) alice =
       User (js ''a@x.com'') name (Str (js ''al''))"
    by blast
  moreover from this(2) have "name = Str (js ''Alice A'')"
    by (simp add: get_user_def alice_def session_email_def or_null_def js_def Let_def)
  ultimately show ?thesis
    using e p l by simp
qed

text \<open>
  C4. On an admitted connection \<open>sendMessage\<close> does nothing at all exactly when the
  payload is absent or not a string, absent being what the guard \<open>!text\<close> tests: the
  state, and so the log, the events sent and the exceptions thrown, is unchanged. Every
  other payload is a string that is not empty: a record is made of it, the log with
  that record is written, and the record is sent to every connected socket.
\<close>

theorem sendMessage_noop_iff:
  assumes "map_of (sockets st) c = Some (e, u)"
  shows "(on_sendMessage st c t now = st \<longleftrightarrow> \<not> truthy t \<or> \<not> is_string t) \<and>
         uncaught (on_sendMessage st c t now) = uncaught st \<and>
         (truthy t \<and> is_string t \<longrightarrow>
            (\<exists>s. t = Str s \<and>
               messages_file (on_sendMessage st c t now) =
                 Doc (shift_while (get_messages st @
                        [\<lparr>msg_sender = u, msg_email = e, msg_text = trim s, msg_ts = now\<rparr>])) \<and>
               deliveries (on_sendMessage st c t now) =
                 deliveries st @
                 map (\<lambda>c'. (c', Message \<lparr>msg_sender = u, msg_email = e, msg_text = trim s,
                                          msg_ts = now\<rparr>))
                   (map fst (sockets st))))"
proof (cases "\<not> truthy t \<or> \<not> is_string t")
  case True
  then have "on_sendMessage st c t now = st"
    by (rule sendMessage_ignored)
  with True show ?thesis
    by auto
next
  case False
  then obtain s where t: "t = Str s" and ne: "s \<noteq> []"
    by (cases t) auto
  note accepted = sendMessage_accepted [OF assms ne, of now]
  have "on_sendMessage st c (Str s) now \<noteq> st"
  proof
    assume same: "on_sendMessage st c (Str s) now = st"
    from accepted have "deliveries (on_sendMessage st c (Str s) now) =
        deliveries st @
        map (\<lambda>c'. (c', Message \<lparr>msg_sender = u, msg_email = e, msg_text = trim s,
                                 msg_ts = now\<rparr>))
          (map fst (sockets st))"
      by simp
    with same have "sockets st = []"
      by simp
    with assms show False
      by simp
  qed
  with False t show ?thesis
    by (simp add: accepted)
qed

theorem sendMessage_noop_iff_witness:
  "map_of (sockets example_chat) 1 = Some (Str (js ''b@x.com''), Str (js ''bob'')) \<and>
   on_sendMessage example_chat 1 Undefined 9 = example_chat \<and>
   on_sendMessage example_chat 1 (Num 7) 9 = example_chat \<and>
   on_sendMessage example_chat 1 (Str []) 9 = example_chat \<and>
   on_sendMessage example_chat 1 (Str (js ''ok '')) 9 \<noteq> example_chat \<and>
   messages_file (on_sendMessage example_chat 1 (Str (js ''ok '')) 9) =
     Doc [\<lparr>msg_sender = Str (js ''bob''), msg_email = Str (js ''b@x.com''),
            msg_text = js ''ok'', msg_ts = 9\<rparr>] \<and>
   events_to 0 (deliveries (on_sendMessage example_chat 1 (Str (js ''ok '')) 9)) =
     events_to 0 (deliveries example_chat) @
     [Message \<lparr>msg_sender = Str (js ''bob''), msg_email = Str (js ''b@x.com''),
                msg_text = js ''ok'', msg_ts = 9\<rparr>]"
proof -
  have bound: "map_of (sockets example_chat) 1 = Some (Str (js ''b@x.com''), Str (js ''bob''))"
    by (simp add: example_chat_def)
  have t: "trim (js ''ok '') = js ''ok''"
    by (simp add: trim_def is_white_space_def js_def)
  have log: "get_messages example_chat = []"
    by (simp add: get_messages_def example_chat_def)
  have socks: "map fst (sockets example_chat) = [0, 1]"
    by (simp add: example_chat_def)
  have one: "shift_while [m] = [m]" for m :: message
    by (simp add: shift_while_drop MAX_messages_def)
  have ok: "truthy (Str (js ''ok '')) \<and> is_string (Str (js ''ok ''))"
    by (simp add: js_def)
  from sendMessage_noop_iff [OF bound, of "Str (js ''ok '')" 9] ok
  have "on_sendMessage example_chat 1 (Str (js ''ok '')) 9 \<noteq> example_chat"
    and "messages_file (on_sendMessage example_chat 1 (Str (js ''ok '')) 9) =
      Doc [\<lparr>msg_sender = Str (js ''bob''), msg_email = Str (js ''b@x.com''),
             msg_text = js ''ok'', msg_ts = 9\<rparr>]"
    and "deliveries (on_sendMessage example_chat 1 (Str (js ''ok '')) 9) =
      deliveries example_chat @
      [(0, Message \<lparr>msg_sender = Str (js ''bob''), msg_email = Str (js ''b@x.com''),
                     msg_text = js ''ok'', msg_ts = 9\<rparr>),
       (1, Message \<lparr>msg_sender = Str (js ''bob''), msg_email = Str (js ''b@x.com''),
                     msg_text = js ''ok'', msg_ts = 9\<rparr>)]"
    by (simp_all add: t log socks one)
  moreover from sendMessage_noop_iff [OF bound, of Undefined 9]
  have "on_sendMessage example_chat 1 Undefined 9 = example_chat"
    by simp
  moreover from sendMessage_noop_iff [OF bound, of "Num 7" 9]
  have "on_sendMessage example_chat 1 (Num 7) 9 = example_chat"
    by simp
  moreover from sendMessage_noop_iff [OF bound, of "Str []" 9]
  have "on_sendMessage example_chat 1 (Str []) 9 = example_chat"
    by simp
  ultimately show ?thesis
    using bound by simp
qed

text \<open>
  C5. The text of a stored record is trimmed (\<open>trim_no_leading\<close>, \<open>trim_no_trailing\<close>), but
  the handler tests the payload for emptiness before it trims: three spaces pass the
  guard, and the record that is stored and sent to both sockets has the empty text.
\<close>

theorem whitespace_only_text_is_stored_empty:
  "get_messages (on_sendMessage example_chat 0 (Str (js ''   '')) 9) =
     [\<lparr>msg_sender = Str (js ''alice''), msg_email = Str (js ''a@x.com''),
        msg_text = [], msg_ts = 9\<rparr>] \<and>
   deliveries (on_sendMessage example_chat 0 (Str (js ''   '')) 9) =
     deliveries example_chat @
     [(0, Message \<lparr>msg_sender = Str (js ''alice''), msg_email = Str (js ''a@x.com''),
                    msg_text = [], msg_ts = 9\<rparr>),
      (1, Message \<lparr>msg_sender = Str (js ''alice''), msg_email = Str (js ''a@x.com''),
                    msg_text = [], msg_ts = 9\<rparr>)]"
proof -
  have bound: "map_of (sockets example_chat) 0 = Some (Str (js ''a@x.com''), Str (js ''alice''))"
    by (simp add: example_chat_def)
  have ne: "js ''   '' \<noteq> []"
    by (simp add: js_def)
  have t: "trim (js ''   '') = []"
    by (simp add: trim_def is_white_space_def js_def)
  have log: "get_messages example_chat = []"
    by (simp add: get_messages_def example_chat_def)
  have socks: "map fst (sockets example_chat) = [0, 1]"
    by (simp add: example_chat_def)
  have "shift_while [m] = [m]" for m :: message
    by (simp add: shift_while_drop MAX_messages_def)
  then show ?thesis
    by (simp add: sendMessage_accepted [OF bound ne] t log socks)
qed

theorem whitespace_only_text_is_stored_empty_witness:
  "truthy (Str (js ''   '')) \<and> is_string (Str (js ''   '')) \<and>
   msg_text (last (get_messages (on_sendMessage example_chat 0 (Str (js ''   '')) 9))) = []"
  using whitespace_only_text_is_stored_empty by (simp add: js_def)

text \<open>
  C6. An admitted connection is sent the whole current log in an \<open>init\<close> event, and the
  join is announced to the sockets that were connected before, never to the new one. In
  every continuation the events the new socket receives begin with that \<open>init\<close>, and no
  other \<open>init\<close> follows: it comes exactly once, before any \<open>message\<close>.
\<close>

theorem admitted_gets_init_once_first:
  assumes "ids_below_next st" and "admissible tostr st hs"
  shows "deliveries (on_connection tostr st hs now) =
           deliveries st @
           (next_socket st, Init (get_messages st)) #
           map (\<lambda>c. (c, System (to_string tostr (auth_username hs) @ js '' joined'') now))
             (map fst (sockets st)) \<and>
         next_socket st \<notin> set (map fst (sockets st)) \<and>
         (\<forall>acts. \<exists>rest.
            events_to (next_socket st)
              (deliveries (run tostr (on_connection tostr st hs now) acts)) =
              Init (get_messages st) # rest \<and>
            list_all (\<lambda>ev. \<not> is_init ev) rest)"
proof -
  let ?sid = "next_socket st"
  let ?st1 = "on_connection tostr st hs now"
  let ?join = "System (to_string tostr (auth_username hs) @ js '' joined'') now"
  have fresh: "?sid \<notin> set (map fst (sockets st))"
    using assms(1) by (rule below_next_fresh)
  then have others: "filter (\<lambda>c. c \<noteq> ?sid) (map fst (sockets st)) = map fst (sockets st)"
    by (intro filter_True) blast
  have st1: "?st1 = st\<lparr>next_socket := Suc ?sid,
      sockets := sockets st @ [(?sid, auth_email hs, auth_username hs)],
      deliveries := deliveries st @ (?sid, Init (get_messages st)) #
        map (\<lambda>c. (c, ?join)) (map fst (sockets st))\<rparr>"
    using on_connection_admitted [OF assms(2), of now] others by simp
  have ids: "ids_below_next ?st1" and less: "?sid < next_socket ?st1"
    using assms(1) by (auto simp: st1 ids_below_next_def list_all_iff less_Suc_eq)
  have none: "events_to ?sid (deliveries st) = []"
    using below_next_fresh(2) [OF assms(1)] by (rule events_to_none)
  have first: "events_to ?sid (deliveries ?st1) = [Init (get_messages st)]"
    by (simp add: st1 none events_to_others [OF fresh] del: map_map)
  have "\<exists>rest. events_to ?sid (deliveries (run tostr ?st1 acts)) =
          Init (get_messages st) # rest \<and> list_all (\<lambda>ev. \<not> is_init ev) rest" for acts
  proof -
    obtain new where new: "deliveries (run tostr ?st1 acts) = deliveries ?st1 @ new"
      using deliveries_run by blast
    have "filter is_init (events_to ?sid (deliveries (run tostr ?st1 acts))) =
        filter is_init (events_to ?sid (deliveries ?st1))"
      using ids less by (rule run_no_init)
    then have "filter is_init (events_to ?sid new) = []"
      by (simp add: new first)
    then have "list_all (\<lambda>ev. \<not> is_init ev) (events_to ?sid new)"
      by (simp add: filter_empty_conv list_all_iff)
    moreover have "events_to ?sid (deliveries (run tostr ?st1 acts)) =
        Init (get_messages st) # events_to ?sid new"
      by (simp add: new first)
    ultimately show ?thesis
      by blast
  qed
  with fresh show ?thesis
    by (simp add: st1)
qed

theorem admitted_gets_init_once_first_witness:
  "ids_below_next example_chat \<and> admissible no_tostring example_chat bob_auth \<and>
   deliveries (on_connection no_tostring example_chat bob_auth 5) =
     deliveries example_chat @
     [(2, Init []), (0, System (js ''bob joined'') 5), (1, System (js ''bob joined'') 5)] \<and>
   (\<exists>rest. events_to 2 (deliveries (run no_tostring
              (on_connection no_tostring example_chat bob_auth 5)
              [SendMessage 0 (Str (js ''hi'')) 6, Connect alice_auth 7])) = Init [] # rest \<and>
           list_all (\<lambda>ev. \<not> is_init ev) rest)"
proof -
  have ids: "ids_below_next example_chat"
    by (simp add: ids_below_next_def example_chat_def)
  have adm: "admissible no_tostring example_chat bob_auth"
    by (simp add: admissible_def example_chat_def bob_auth_def to_string_def js_def)
  have facts: "next_socket example_chat = 2" "get_messages example_chat = []"
    "map fst (sockets example_chat) = [0, 1]"
    "to_string no_tostring (auth_username bob_auth) @ js '' joined'' = js ''bob joined''"
    by (simp_all add: example_chat_def get_messages_def bob_auth_def to_string_def js_def)
  from admitted_gets_init_once_first [OF ids adm, of 5] ids adm show ?thesis
    by (simp add: facts)
qed

text \<open>
  C7. When an admitted connection submits a string that is not empty, the record has
  the username and email bound to the connection as sender, the trimmed payload as
  text, and the time of the call; it becomes the last record of the persisted log, and
  it is sent as a \<open>message\<close> event to every connected socket, the submitter among them.
\<close>

theorem sendMessage_record_and_broadcast:
  assumes "map_of (sockets st) c = Some (e, u)" and "s \<noteq> []"
  shows "get_messages (on_sendMessage st c (Str s) now) \<noteq> [] \<and>
         last (get_messages (on_sendMessage st c (Str s) now)) =
           \<lparr>msg_sender = u, msg_email = e, msg_text = trim s, msg_ts = now\<rparr> \<and>
         deliveries (on_sendMessage st c (Str s) now) =
           deliveries st @
           map (\<lambda>c'. (c', Message \<lparr>msg_sender = u, msg_email = e, msg_text = trim s,
                                    msg_ts = now\<rparr>))
             (map fst (sockets st)) \<and>
         c \<in> set (map fst (sockets st))"
proof -
  have "0 < MAX_messages"
    by (simp add: MAX_messages_def)
  from most_recent_snoc [OF this] have
    "shift_while (xs @ [m]) \<noteq> [] \<and> last (shift_while (xs @ [m])) = m"
    for xs and m :: message
    by (simp add: shift_while_most_recent)
  moreover from assms(1) have "c \<in> set (map fst (sockets st))"
    by (metis map_of_eq_None_iff option.distinct(1) set_map)
  ultimately show ?thesis
    by (simp add: sendMessage_accepted [OF assms])
qed

theorem sendMessage_record_and_broadcast_witness:
  "map_of (sockets example_chat) 0 = Some (Str (js ''a@x.com''), Str (js ''alice'')) \<and>
   js ''  hello  '' \<noteq> [] \<and>
   last (get_messages (on_sendMessage example_chat 0 (Str (js ''  hello  '')) 9)) =
     \<lparr>msg_sender = Str (js ''alice''), msg_email = Str (js ''a@x.com''),
      msg_text = js ''hello'', msg_ts = 9\<rparr> \<and>
   deliveries (on_sendMessage example_chat 0 (Str (js ''  hello  '')) 9) =
     deliveries example_chat @
     [(0, Message \<lparr>msg_sender = Str (js ''alice''), msg_email = Str (js ''a@x.com''),
                    msg_text = js ''hello'', msg_ts = 9\<rparr>),
      (1, Message \<lparr>msg_sender = Str (js ''alice''), msg_email = Str (js ''a@x.com''),
                    msg_text = js ''hello'', msg_ts = 9\<rparr>)]"
proof -
  have bound: "map_of (sockets example_chat) 0 = Some (Str (js ''a@x.com''), Str (js ''alice''))"
    by (simp add: example_chat_def)
  have ne: "js ''  hello  '' \<noteq> []"
    by (simp add: js_def)
  have t: "trim (js ''  hello  '') = js ''hello''"
    by (simp add: trim_def is_white_space_def js_def)
  have socks: "map fst (sockets example_chat) = [0, 1]"
    by (simp add: example_chat_def)
  from sendMessage_record_and_broadcast [OF bound ne, of 9] bound ne show ?thesis
    by (simp add: t socks)
qed

text \<open>
  C8. \<open>setUsername\<close> answers 401 when the session has no email, and 400 when it has one
  and the candidate is absent, not a string, or a string of fewer than two code units.
  Whenever the answer is not a success, the state, and with it every stored display
  name, is what it was.
\<close>

theorem set_username_failures:
  "(session_email user = None \<longrightarrow>
      set_username st user cand = (Failed 401 (js ''not authenticated''), st)) \<and>
   (session_email user \<noteq> None \<and>
      (cand = Undefined \<or> \<not> is_string cand \<or> (\<exists>s. cand = Str s \<and> length s < 2)) \<longrightarrow>
      set_username st user cand = (Failed 400 (js ''invalid username''), st)) \<and>
   ((\<forall>u. fst (set_username st user cand) \<noteq> Ok u) \<longrightarrow>
      snd (set_username st user cand) = st)"
  by (cases cand) (auto simp: set_username_def invalid_username_def split: option.splits)

theorem set_username_failures_witness:
  "session_email None = None \<and>
   set_username example_chat None (Str (js ''zed'')) =
     (Failed 401 (js ''not authenticated''), example_chat) \<and>
   session_email alice \<noteq> None \<and> length (js ''a'') < 2 \<and>
   set_username example_chat alice (Str (js ''a'')) =
     (Failed 400 (js ''invalid username''), example_chat) \<and>
   set_username example_chat alice Undefined =
     (Failed 400 (js ''invalid username''), example_chat) \<and>
   \<not> is_string (Num 12) \<and>
   set_username example_chat alice (Num 12) =
     (Failed 400 (js ''invalid username''), example_chat) \<and>
   get_user (snd (set_username example_chat alice (Str (js ''a'')))) alice =
     User (js ''a@x.com'') (Str (js ''Alice A'')) (Str (js ''alice''))"
proof -
  have e: "session_email alice = Some (js ''a@x.com'')"
    by (simp add: session_email_def alice_def)
  have l: "length (js ''a'') < 2"
    by (simp add: js_def)
  have "get_user example_chat alice =
      User (js ''a@x.com'') (Str (js ''Alice A'')) (Str (js ''alice''))"
    by (simp add: get_user_def session_email_def alice_def example_chat_def get_property_def or_null_def
          js_def Let_def)
  with e l
    set_username_failures [of None example_chat "Str (js ''zed'')"]
    set_username_failures [of alice example_chat "Str (js ''a'')"]
    set_username_failures [of alice example_chat Undefined]
    set_username_failures [of alice example_chat "Num 12"]
  show ?thesis
    by (simp add: session_email_def)
qed

text \<open>
  C9. A file that cannot be read or parsed counts as an empty document, and nothing
  else comes of it: each handler that reads a file answers, emits and writes as it
  would if the file held the empty object or the empty array. No answer and no event
  tells the two apart.
\<close>

theorem unreadable_as_empty:
  "get_user st user = get_user (as_if_empty st) user \<and>
   get_messages st = get_messages (as_if_empty st) \<and>
   fst (set_username st user cand) = fst (set_username (as_if_empty st) user cand) \<and>
   as_if_empty (snd (set_username st user cand)) =
     as_if_empty (snd (set_username (as_if_empty st) user cand)) \<and>
   as_if_empty (on_connection tostr st hs now) =
     as_if_empty (on_connection tostr (as_if_empty st) hs now) \<and>
   as_if_empty (on_sendMessage st c t now') =
     as_if_empty (on_sendMessage (as_if_empty st) c t now')"
proof -
  have "get_user st user = get_user (as_if_empty st) user"
    by (simp add: get_user_def as_if_empty_def split: option.splits)
  moreover have "get_messages st = get_messages (as_if_empty st)"
    by (simp add: get_messages_def as_if_empty_def)
  moreover have
    "fst (set_username st user cand) = fst (set_username (as_if_empty st) user cand)"
    by (simp add: set_username_def as_if_empty_def split: option.splits jsval.splits)
  moreover have "as_if_empty (snd (set_username st user cand)) =
      as_if_empty (snd (set_username (as_if_empty st) user cand))"
    by (simp add: set_username_def as_if_empty_def writeJSON_def
          split: option.splits jsval.splits)
  moreover have "as_if_empty (on_connection tostr st hs now) =
      as_if_empty (on_connection tostr (as_if_empty st) hs now)"
    by (simp add: on_connection_def as_if_empty_def refuse_def throws_def emit_def
          broadcast_emit_def Let_def split: sum.splits)
  moreover have "as_if_empty (on_sendMessage st c t now') =
      as_if_empty (on_sendMessage (as_if_empty st) c t now')"
    by (simp add: on_sendMessage_def as_if_empty_def io_emit_def writeJSON_def Let_def
          split: option.splits jsval.splits)
  ultimately show ?thesis
    by simp
qed

theorem unreadable_as_empty_witness:
  "users_file example_unreadable = Unreadable \<and>
   messages_file example_unreadable = Unreadable \<and>
   users_file (as_if_empty example_unreadable) = Doc Map.empty \<and>
   messages_file (as_if_empty example_unreadable) = Doc [] \<and>
   get_user example_unreadable alice = get_user (as_if_empty example_unreadable) alice \<and>
   get_user example_unreadable alice = User (js ''a@x.com'') (Str (js ''Alice A'')) Null \<and>
   get_messages example_unreadable = [] \<and>
   fst (set_username example_unreadable alice (Str (js ''alice''))) = Ok (js ''alice'') \<and>
   deliveries (on_connection no_tostring example_unreadable alice_auth 5) =
     deliveries (on_connection no_tostring (as_if_empty example_unreadable) alice_auth 5) \<and>
   get_messages (on_sendMessage example_unreadable 0 (Str (js ''hi'')) 6) =
     get_messages (on_sendMessage (as_if_empty example_unreadable) 0 (Str (js ''hi'')) 6)"
proof -
  have e: "session_email alice = Some (js ''a@x.com'')"
    by (simp add: session_email_def alice_def)
  have files: "users_file example_unreadable = Unreadable"
    "messages_file example_unreadable = Unreadable"
    "users_file (as_if_empty example_unreadable) = Doc Map.empty"
    "messages_file (as_if_empty example_unreadable) = Doc []"
    by (simp_all add: example_unreadable_def as_if_empty_def)
  have user: "get_user example_unreadable alice =
      User (js ''a@x.com'') (Str (js ''Alice A'')) Null"
    by (simp add: get_user_def session_email_def alice_def files get_property_def or_null_def
          object_prototype_names_def js_def Let_def)
  have log: "get_messages example_unreadable = []"
    by (simp add: get_messages_def files)
  have ok: "fst (set_username example_unreadable alice (Str (js ''alice''))) = Ok (js ''alice'')"
    by (simp add: set_username_def e invalid_username_def js_def Let_def)
  note all = unreadable_as_empty
    [of example_unreadable alice "Str (js ''alice'')" no_tostring alice_auth 5 0
       "Str (js ''hi'')" 6]
  from all have "deliveries (as_if_empty (on_connection no_tostring example_unreadable alice_auth 5)) =
      deliveries (as_if_empty
        (on_connection no_tostring (as_if_empty example_unreadable) alice_auth 5))"
    by simp
  then have conn: "deliveries (on_connection no_tostring example_unreadable alice_auth 5) =
      deliveries (on_connection no_tostring (as_if_empty example_unreadable) alice_auth 5)"
    by (simp only: deliveries_as_if_empty)
  from all have "get_messages (as_if_empty (on_sendMessage example_unreadable 0 (Str (js ''hi'')) 6)) =
      get_messages (as_if_empty
        (on_sendMessage (as_if_empty example_unreadable) 0 (Str (js ''hi'')) 6))"
    by simp
  then have send: "get_messages (on_sendMessage example_unreadable 0 (Str (js ''hi'')) 6) =
      get_messages (on_sendMessage (as_if_empty example_unreadable) 0 (Str (js ''hi'')) 6)"
    by (simp only: get_messages_as_if_empty)
  from all have "get_user example_unreadable alice = get_user (as_if_empty example_unreadable) alice"
    by simp
  with files user log ok conn send show ?thesis
    by simp
qed

text \<open>
  C10. When the users file parses, a successful \<open>setUsername\<close> leaves the entry of
  every other email as it was: what it holds, and what a read of it yields.
\<close>

theorem set_username_frame:
  assumes "users_file st = Doc users" and "session_email user = Some e"
      and "fst (set_username st user cand) = Ok u" and "e' \<noteq> e"
  shows "\<exists>users'. users_file (snd (set_username st user cand)) = Doc users' \<and>
           users' e' = users e' \<and> get_property users' e' = get_property users e'"
  using assms
  by (cases cand)
     (auto simp: set_username_def invalid_username_def set_property_def get_property_def
        writeJSON_def split: option.splits if_splits)

theorem set_username_frame_witness:
  "users_file example_chat =
     Doc [js ''a@x.com'' \<mapsto> js ''alice'', js ''b@x.com'' \<mapsto> js ''bob''] \<and>
   session_email alice = Some (js ''a@x.com'') \<and>
   fst (set_username example_chat alice (Str (js ''al''))) = Ok (js ''al'') \<and>
   js ''b@x.com'' \<noteq> js ''a@x.com'' \<and>
   (\<exists>users'. users_file (snd (set_username example_chat alice (Str (js ''al'')))) = Doc users' \<and>
      users' (js ''b@x.com'') = Some (js ''bob'') \<and>
      get_property users' (js ''b@x.com'') = Str (js ''bob''))"
proof -
  have f: "users_file example_chat =
      Doc [js ''a@x.com'' \<mapsto> js ''alice'', js ''b@x.com'' \<mapsto> js ''bob'']"
    by (simp add: example_chat_def)
  have e: "session_email alice = Some (js ''a@x.com'')"
    by (simp add: session_email_def alice_def)
  have ok: "fst (set_username example_chat alice (Str (js ''al''))) = Ok (js ''al'')"
    by (simp add: set_username_def e invalid_username_def js_def Let_def)
  have ne: "js ''b@x.com'' \<noteq> js ''a@x.com''"
    by (simp add: js_def)
  from set_username_frame [OF f e ok ne] f e ok ne show ?thesis
    by (simp add: get_property_def)
qed

text \<open>
  The one email for which a chosen name does not come back: under the name
  \<open>__proto__\<close> nothing is stored, and the answer carries the inherited object in place
  of the username.
\<close>

lemma proto_email_not_stored:
  "fst (set_username initial
      (Some \<lparr>emails = Some [js ''__proto__''], displayName = None\<rparr>) (Str (js ''al''))) =
     Ok (js ''al'') \<and>
   get_user (snd (set_username initial
      (Some \<lparr>emails = Some [js ''__proto__''], displayName = None\<rparr>) (Str (js ''al''))))
      (Some \<lparr>emails = Some [js ''__proto__''], displayName = None\<rparr>) =
     User (js ''__proto__'') Null (Builtin (js ''__proto__''))"
  by (simp add: set_username_def get_user_def session_email_def invalid_username_def
        set_property_def get_property_def or_null_def writeJSON_def initial_def
        object_prototype_names_def js_def Let_def)

end
